theory Spec2Isabelle
  imports Main "HOL-Library.AList" "HOL-Library.Sublist"
begin

section \<open>Data model\<close>

text \<open>
  The service worker of the repository exists in two variants: \<^verbatim>\<open>src/sw.js\<close> (styles are
  served cache-first, navigations are not intercepted) and \<^verbatim>\<open>src/unnamed/part_000\<close>
  (navigations are answered with the app shell). Both share the install and activate
  handlers and the helper \<^verbatim>\<open>staleWhileRevalidate\<close>.

  A URL is kept as its origin (scheme, host and port, as in \<^verbatim>\<open>https://example.org\<close>),
  path and query: the worker reads \<^verbatim>\<open>url.pathname\<close> only, and the platform's stores are
  keyed by the whole URL.
\<close>

record url =
  origin :: string
  pathname :: string
  search :: string

record request = req_method :: string
  url :: url
  destination :: string
  mode :: string

record response =
  status :: nat
  headers :: "(string \<times> string) list"
  body :: string

datatype error = NetworkError | AddAllError

text \<open>The network answers a URL with a response (of any status) or does not answer.\<close>

type_synonym network = "url \<Rightarrow> error + response"

text \<open>
  What a promise settles with: a JavaScript value that is a \<^verbatim>\<open>Response\<close> or
  \<^verbatim>\<open>null\<close>/\<^verbatim>\<open>undefined\<close> (\<open>None\<close>), or a rejection.
\<close>

datatype settled = Fulfilled "response option" | Rejected error

text \<open>
  Every call of the platform's storage and network interface is recorded, in the order
  in which the calls and settlements happen. \<open>CachesMatch\<close> is the storage-wide
  \<^verbatim>\<open>caches.match\<close>, \<open>CacheMatch\<close> the lookup \<^verbatim>\<open>cache.match\<close> in one opened store.
  \<open>Settle\<close> marks the moment the promise handed to \<^verbatim>\<open>event.respondWith\<close> settles.
\<close>

datatype event =
    CachesOpen string
  | CachesKeys
  | CachesDelete string
  | CachesMatch url
  | CacheMatch string url
  | CachePut string url response
  | CacheAddAll string "url list"
  | FetchStart url
  | FetchSettled url
  | Settle settled
  | SkipWaiting
  | ClientsClaim

type_synonym store = "(url \<times> response) list"

text \<open>
  The platform's cache storage holds named stores in the order of their creation;
  \<open>trace\<close> is the record of the calls made so far.
\<close>

record world =
  caches :: "(string \<times> store) list"
  trace :: "event list"

section \<open>The platform interface\<close>

text \<open>
  The storage and network functions belong to the browser, not to the repository. They
  are modelled as the key-value interface the handlers rely on: open-or-create by name,
  enumerate names, delete by name, and get, put and match of entries.
\<close>

definition emit :: "event \<Rightarrow> world \<Rightarrow> world" where
  "emit e w = w\<lparr>trace := trace w @ [e]\<rparr>"

text \<open>\<^verbatim>\<open>caches.open(name)\<close>: the store is created, empty, when it does not exist.\<close>

definition open_store :: "string \<Rightarrow> (string \<times> store) list \<Rightarrow> (string \<times> store) list" where
  "open_store name cs = (if name \<in> set (map fst cs) then cs else cs @ [(name, [])])"

definition caches_open :: "string \<Rightarrow> world \<Rightarrow> world" where
  "caches_open name w = emit (CachesOpen name) (w\<lparr>caches := open_store name (caches w)\<rparr>)"

text \<open>\<^verbatim>\<open>caches.keys()\<close>: the names of the stores, in creation order.\<close>

definition caches_keys :: "world \<Rightarrow> string list \<times> world" where
  "caches_keys w = (map fst (caches w), emit CachesKeys w)"

text \<open>\<^verbatim>\<open>caches.delete(name)\<close>: the whole store goes.\<close>

definition caches_delete :: "string \<Rightarrow> world \<Rightarrow> world" where
  "caches_delete name w = emit (CachesDelete name) (w\<lparr>caches := AList.delete name (caches w)\<rparr>)"

text \<open>The entry of one store for a URL; a store that does not exist has none.\<close>

definition store_lookup :: "string \<Rightarrow> url \<Rightarrow> (string \<times> store) list \<Rightarrow> response option" where
  "store_lookup name u cs = (case map_of cs name of None \<Rightarrow> None | Some s \<Rightarrow> map_of s u)"

text \<open>\<^verbatim>\<open>cache.match(request)\<close> on the store opened under \<open>name\<close>.\<close>

definition cache_match :: "string \<Rightarrow> url \<Rightarrow> world \<Rightarrow> response option \<times> world" where
  "cache_match name u w = (store_lookup name u (caches w), emit (CacheMatch name u) w)"

text \<open>
  \<^verbatim>\<open>caches.match(request)\<close> on the storage itself: the stores are searched in creation
  order and the first entry found is the answer.
\<close>

fun storage_lookup :: "url \<Rightarrow> (string \<times> store) list \<Rightarrow> response option" where
  "storage_lookup u [] = None"
| "storage_lookup u ((name, s) # cs) =
     (case map_of s u of Some r \<Rightarrow> Some r | None \<Rightarrow> storage_lookup u cs)"

definition caches_match :: "url \<Rightarrow> world \<Rightarrow> response option \<times> world" where
  "caches_match u w = (storage_lookup u (caches w), emit (CachesMatch u) w)"

text \<open>Writing an entry: the entry of that URL is overwritten in place.\<close>

definition put_entry :: "string \<Rightarrow> url \<Rightarrow> response \<Rightarrow> (string \<times> store) list \<Rightarrow> (string \<times> store) list" where
  "put_entry name u r cs = AList.map_entry name (AList.update u r) cs"

text \<open>
  The platform does not store everything. \<^verbatim>\<open>cache.put\<close> refuses, with a rejected promise,
  a request whose URL is not of the scheme \<^verbatim>\<open>http\<close> or \<^verbatim>\<open>https\<close>, a response of status
  206, and a response with a \<^verbatim>\<open>Vary\<close> header that lists \<^verbatim>\<open>*\<close>. Header names are compared
  without regard to case, and the value of \<^verbatim>\<open>Vary\<close> is a list of names separated by commas,
  with blanks around them.
\<close>

definition http_scheme :: "url \<Rightarrow> bool" where
  "http_scheme u = (prefix ''http://'' (origin u) \<or> prefix ''https://'' (origin u))"

definition lower :: "char \<Rightarrow> nat" where
  "lower c = (let n = of_char c :: nat in if 65 \<le> n \<and> n \<le> 90 then n + 32 else n)"

fun split_commas :: "string \<Rightarrow> string list" where
  "split_commas [] = [[]]"
| "split_commas (c # cs) =
     (if c = CHR '','' then [] # split_commas cs
      else (case split_commas cs of [] \<Rightarrow> [[c]] | x # xs \<Rightarrow> (c # x) # xs))"

definition blank :: "char \<Rightarrow> bool" where
  "blank c = (c = CHR '' '' \<or> c = CHR 0x09)"

definition trim :: "string \<Rightarrow> string" where
  "trim s = rev (dropWhile blank (rev (dropWhile blank s)))"

definition vary_star :: "response \<Rightarrow> bool" where
  "vary_star r =
     list_ex (\<lambda>h. map lower (fst h) = map lower ''vary'' \<and>
                    ''*'' \<in> set (map trim (split_commas (snd h))))
       (headers r)"

definition storable :: "url \<Rightarrow> response \<Rightarrow> bool" where
  "storable u r = (http_scheme u \<and> status r \<noteq> 206 \<and> \<not> vary_star r)"

text \<open>
  \<^verbatim>\<open>cache.put(request, response)\<close> as the worker calls it: the promise of the put is
  dropped, so a refused put leaves the stores as they were and nothing shows it. The
  call is recorded either way.
\<close>

definition cache_put :: "string \<Rightarrow> url \<Rightarrow> response \<Rightarrow> world \<Rightarrow> world" where
  "cache_put name u r w =
     emit (CachePut name u r)
       (if storable u r then w\<lparr>caches := put_entry name u r (caches w)\<rparr> else w)"

text \<open>\<^verbatim>\<open>fetch(request)\<close>, awaited at once: the call and its settlement.\<close>

definition fetch :: "network \<Rightarrow> url \<Rightarrow> world \<Rightarrow> (error + response) \<times> world" where
  "fetch net u w = (net u, emit (FetchSettled u) (emit (FetchStart u) w))"

text \<open>
  Modelled from the spec: \<^verbatim>\<open>cache.addAll\<close> is a function of the platform and not in the
  source. Every URL of the list is fetched; when one of them cannot be fetched, or is
  answered with a status outside 200..299, the call fails and nothing is stored;
  otherwise every response is stored under its URL.
\<close>

definition ok :: "response \<Rightarrow> bool" where
  "ok r = (200 \<le> status r \<and> status r \<le> 299)"

fun fetch_all :: "network \<Rightarrow> url list \<Rightarrow> (url \<times> response) list option" where
  "fetch_all net [] = Some []"
| "fetch_all net (u # us) =
     (case net u of
        Inl e \<Rightarrow> None
      | Inr r \<Rightarrow> (if ok r then map_option (\<lambda>rs. (u, r) # rs) (fetch_all net us) else None))"

fun put_all :: "string \<Rightarrow> (url \<times> response) list \<Rightarrow> (string \<times> store) list \<Rightarrow> (string \<times> store) list" where
  "put_all name [] cs = cs"
| "put_all name ((u, r) # rs) cs = put_all name rs (put_entry name u r cs)"

definition cache_addAll :: "string \<Rightarrow> url list \<Rightarrow> network \<Rightarrow> world \<Rightarrow> (error + unit) \<times> world" where
  "cache_addAll name us net w =
     (let w1 = emit (CacheAddAll name us) w in
      case fetch_all net us of
        None \<Rightarrow> (Inl AddAllError, w1)
      | Some rs \<Rightarrow> (Inr (), w1\<lparr>caches := put_all name rs (caches w1)\<rparr>))"

text \<open>
  \<^verbatim>\<open>event.respondWith(promise)\<close>: the page receives the response the promise fulfils
  with; a rejection, or a value that is not a response, reaches the page as a network
  error.
\<close>

fun respondWith :: "settled \<Rightarrow> error + response" where
  "respondWith (Fulfilled (Some r)) = Inr r"
| "respondWith (Fulfilled None) = Inl NetworkError"
| "respondWith (Rejected e) = Inl NetworkError"

section \<open>The worker\<close>

text \<open>
  \<^verbatim>\<open>CACHE_VERSION\<close> is a constant of the source that is edited at each deployment. The
  handlers take it as their first argument, so that two deployments can be compared;
  the deployed value is \<open>CACHE_VERSION\<close>.
\<close>

definition CACHE_VERSION :: string where
  "CACHE_VERSION = ''v2''"

definition CACHE_NAME :: "string \<Rightarrow> string" where
  "CACHE_NAME ver = ''oha-'' @ ver"

definition CORE_ASSETS :: "string list" where
  "CORE_ASSETS =
     [''/'', ''/index.html'', ''/manifest.json'', ''/favicon.svg'', ''/assets/css/main.css'',
      ''/assets/media/freepik-luxury-800.webp'']"

definition CORE_ASSETS_part_000 :: "string list" where
  "CORE_ASSETS_part_000 =
     [''/'', ''/index.html'', ''/manifest.json'', ''/favicon.svg'', ''/assets/css/main.css'']"

text \<open>
  A path written in the source stands for the URL of that path at the worker's own
  origin \<open>loc\<close>.
\<close>

definition resolve :: "string \<Rightarrow> string \<Rightarrow> url" where
  "resolve loc path = \<lparr>origin = loc, pathname = path, search = ''''\<rparr>"

text \<open>
  The install handler. \<^verbatim>\<open>caches.open\<close> is called while the handler runs,
  \<^verbatim>\<open>self.skipWaiting()\<close> right after it, and \<^verbatim>\<open>cache.addAll\<close> once the store is open. The
  result is what the promise given to \<^verbatim>\<open>event.waitUntil\<close> settles with: a rejection
  fails the installation. The two variants differ in the list of assets only.
\<close>

definition install_handler :: "string list \<Rightarrow> string \<Rightarrow> string \<Rightarrow> network \<Rightarrow> world \<Rightarrow> (error + unit) \<times> world" where
  "install_handler assets ver loc net w =
     (let w1 = caches_open (CACHE_NAME ver) w;
          w2 = emit SkipWaiting w1
      in cache_addAll (CACHE_NAME ver) (map (resolve loc) assets) net w2)"

text \<open>
  The activate handler: \<^verbatim>\<open>caches.keys()\<close>, then \<^verbatim>\<open>caches.delete(k)\<close> for each key that is
  not \<^verbatim>\<open>CACHE_NAME\<close>; \<^verbatim>\<open>self.clients.claim()\<close> is called while the keys are awaited.
\<close>

definition activate_handler :: "string \<Rightarrow> world \<Rightarrow> world" where
  "activate_handler ver w =
     (let (keys, w1) = caches_keys w;
          w2 = emit ClientsClaim w1
      in foldl (\<lambda>w k. caches_delete k w) w2 (filter (\<lambda>k. k \<noteq> CACHE_NAME ver) keys))"

text \<open>
  The promise \<^verbatim>\<open>network\<close> of \<^verbatim>\<open>staleWhileRevalidate\<close>, from the moment the fetch settles:
  \<^verbatim>\<open>cache.put\<close> is called for a response of status 200, any response is the value of the
  promise, and a failed fetch makes it \<^verbatim>\<open>null\<close>.
\<close>

definition revalidate :: "string \<Rightarrow> network \<Rightarrow> url \<Rightarrow> world \<Rightarrow> response option \<times> world" where
  "revalidate cache net u w =
     (let w1 = emit (FetchSettled u) w in
      case net u of
        Inr resp \<Rightarrow> (Some resp, if status resp = 200 then cache_put cache u resp w1 else w1)
      | Inl e \<Rightarrow> (None, w1))"

text \<open>
  \<^verbatim>\<open>staleWhileRevalidate(request)\<close>. With an entry in the store the function returns it
  at once, while the fetch it has started is still under way; the world returned is the
  one after that fetch has settled too. Without an entry the function returns the
  promise \<^verbatim>\<open>network\<close>, and so settles when the fetch does.
\<close>

definition staleWhileRevalidate :: "string \<Rightarrow> network \<Rightarrow> request \<Rightarrow> world \<Rightarrow> settled \<times> world" where
  "staleWhileRevalidate ver net req w =
     (let cache = CACHE_NAME ver;
          w1 = caches_open cache w;
          (cached, w2) = cache_match cache (url req) w1;
          w3 = emit (FetchStart (url req)) w2
      in case cached of
           Some c \<Rightarrow>
             (Fulfilled (Some c),
              snd (revalidate cache net (url req) (emit (Settle (Fulfilled (Some c))) w3)))
         | None \<Rightarrow>
             (let (network, w4) = revalidate cache net (url req) w3
              in (Fulfilled network, emit (Settle (Fulfilled network)) w4)))"

text \<open>The tests of the fetch handlers on the request.\<close>

definition is_style :: "request \<Rightarrow> bool" where
  "is_style req = (suffix ''.css'' (pathname (url req)) \<or> destination req = ''style'')"

definition is_image :: "request \<Rightarrow> bool" where
  "is_image req =
     (prefix ''/assets/media'' (pathname (url req)) \<or>
      suffix ''.png'' (pathname (url req)) \<or>
      suffix ''.jpg'' (pathname (url req)) \<or>
      suffix ''.jpeg'' (pathname (url req)) \<or>
      suffix ''.webp'' (pathname (url req)) \<or>
      suffix ''.svg'' (pathname (url req)))"

text \<open>
  The default branch of both fetch handlers:
  \<^verbatim>\<open>caches.match(request).then(resp => resp || fetch(request))\<close>.
\<close>

definition cache_or_network :: "network \<Rightarrow> url \<Rightarrow> world \<Rightarrow> settled \<times> world" where
  "cache_or_network net u w =
     (let (resp, w1) = caches_match u w in
      case resp of
        Some r \<Rightarrow> (Fulfilled (Some r), emit (Settle (Fulfilled (Some r))) w1)
      | None \<Rightarrow>
          (let (res, w2) = fetch net u w1 in
           case res of
             Inr n \<Rightarrow> (Fulfilled (Some n), emit (Settle (Fulfilled (Some n))) w2)
           | Inl e \<Rightarrow> (Rejected e, emit (Settle (Rejected e)) w2)))"

text \<open>The cache-first branch of \<^verbatim>\<open>src/sw.js\<close>, for styles.\<close>

definition cache_first :: "string \<Rightarrow> network \<Rightarrow> url \<Rightarrow> world \<Rightarrow> settled \<times> world" where
  "cache_first ver net u w =
     (let (resp, w1) = caches_match u w in
      case resp of
        Some r \<Rightarrow> (Fulfilled (Some r), emit (Settle (Fulfilled (Some r))) w1)
      | None \<Rightarrow>
          (let (res, w2) = fetch net u w1 in
           case res of
             Inr n \<Rightarrow>
               (let w3 = caches_open (CACHE_NAME ver) w2;
                    w4 = cache_put (CACHE_NAME ver) u n w3
                in (Fulfilled (Some n), emit (Settle (Fulfilled (Some n))) w4))
           | Inl e \<Rightarrow> (Rejected e, emit (Settle (Rejected e)) w2)))"

text \<open>
  The fetch handler of \<^verbatim>\<open>src/sw.js\<close>. The result is \<open>None\<close> when the handler returns
  without calling \<^verbatim>\<open>event.respondWith\<close>, and otherwise what the promise it passed
  settles with.
\<close>

definition fetch_handler :: "string \<Rightarrow> network \<Rightarrow> request \<Rightarrow> world \<Rightarrow> settled option \<times> world" where
  "fetch_handler ver net req w =
     (if req_method req \<noteq> ''GET'' then (None, w)
      else if is_style req then
        (let (s, w') = cache_first ver net (url req) w in (Some s, w'))
      else if is_image req then
        (let (s, w') = staleWhileRevalidate ver net req w in (Some s, w'))
      else
        (let (s, w') = cache_or_network net (url req) w in (Some s, w')))"

text \<open>
  The fetch handler of \<^verbatim>\<open>src/unnamed/part_000\<close>: a navigation is answered with
  \<^verbatim>\<open>/index.html\<close>, whatever was asked for.
\<close>

definition fetch_handler_part_000 :: "string \<Rightarrow> string \<Rightarrow> network \<Rightarrow> request \<Rightarrow> world \<Rightarrow> settled option \<times> world" where
  "fetch_handler_part_000 ver loc net req w =
     (if req_method req \<noteq> ''GET'' then (None, w)
      else if mode req = ''navigate'' then
        (let (s, w') = cache_or_network net (resolve loc ''/index.html'') w in (Some s, w'))
      else if is_image req then
        (let (s, w') = staleWhileRevalidate ver net req w in (Some s, w'))
      else
        (let (s, w') = cache_or_network net (url req) w in (Some s, w')))"

text \<open>
  The platform hands the fetch events to the worker one after the other, each with the
  network as it is at that moment; \<open>handle_all\<close> runs the handler of \<^verbatim>\<open>src/sw.js\<close> on
  such a sequence and collects what each request was answered with.
\<close>

fun handle_all :: "string \<Rightarrow> (network \<times> request) list \<Rightarrow> world \<Rightarrow> settled option list \<times> world" where
  "handle_all ver [] w = ([], w)"
| "handle_all ver ((net, req) # rest) w =
     (let (s, w1) = fetch_handler ver net req w;
          (ss, w2) = handle_all ver rest w1
      in (s # ss, w2))"

text \<open>
  The calls a handler has added to the record, the store a call names, if it names one,
  and the calls that search all stores.
\<close>

definition new_events :: "world \<Rightarrow> world \<Rightarrow> event list" where
  "new_events w w' = drop (length (trace w)) (trace w')"

fun named_store :: "event \<Rightarrow> string option" where
  "named_store (CachesOpen name) = Some name"
| "named_store (CachesDelete name) = Some name"
| "named_store (CacheMatch name u) = Some name"
| "named_store (CachePut name u r) = Some name"
| "named_store (CacheAddAll name us) = Some name"
| "named_store e = None"

fun searches_all :: "event \<Rightarrow> bool" where
  "searches_all (CachesMatch u) = True"
| "searches_all e = False"

fun removes_store :: "event \<Rightarrow> bool" where
  "removes_store (CachesDelete name) = True"
| "removes_store e = False"

section \<open>Example requests, responses and states\<close>

definition site :: string where
  "site = ''https://oha.example''"

definition get_request :: "string \<Rightarrow> string \<Rightarrow> string \<Rightarrow> request" where
  "get_request path dest md =
     \<lparr>req_method = ''GET'', url = resolve site path, destination = dest, mode = md\<rparr>"

definition css_request :: request where
  "css_request = get_request ''/assets/css/main.css'' ''style'' ''no-cors''"

definition photo_request :: request where
  "photo_request = get_request ''/assets/media/photo.webp'' ''image'' ''no-cors''"

definition json_request :: request where
  "json_request = get_request ''/other/page.json'' [] ''cors''"

definition about_request :: request where
  "about_request = get_request ''/about'' ''document'' ''navigate''"



definition post_request :: request where
  "post_request =
     \<lparr>req_method = ''POST'', url = resolve site ''/assets/css/main.css'', destination = ''style'',
      mode = ''cors''\<rparr>"

definition page :: "nat \<Rightarrow> string \<Rightarrow> response" where
  "page st txt = \<lparr>status = st, headers = [], body = txt\<rparr>"

definition with_header :: "string \<Rightarrow> string \<Rightarrow> response \<Rightarrow> response" where
  "with_header k v r = r\<lparr>headers := (k, v) # headers r\<rparr>"

definition offline :: network where
  "offline u = Inl NetworkError"

definition serving :: "response \<Rightarrow> network" where
  "serving r u = Inr r"

definition without :: "string \<Rightarrow> response \<Rightarrow> network" where
  "without path r u = (if pathname u = path then Inl NetworkError else Inr r)"

definition fresh :: world where
  "fresh = \<lparr>caches = [], trace = []\<rparr>"

definition holding :: "(string \<times> store) list \<Rightarrow> world" where
  "holding cs = \<lparr>caches = cs, trace = []\<rparr>"

section \<open>Facts about the model\<close>

subsection \<open>Facts on the storage\<close>

lemma keys_open_store:
  "map fst (open_store name cs) = (if name \<in> set (map fst cs) then map fst cs else map fst cs @ [name])"
  by (simp add: open_store_def)


lemma map_of_open_store:
  "map_of (open_store name cs) n = (if n = name \<and> map_of cs name = None then Some [] else map_of cs n)"
proof (cases "name \<in> fst ` set cs")
  case True
  then have "map_of cs name \<noteq> None" by (simp add: map_of_eq_None_iff)
  with True show ?thesis by (simp add: open_store_def)
next
  case False
  then have none: "map_of cs name = None" by (simp add: map_of_eq_None_iff)
  have "map_of (cs @ [(name, [])]) n = (case map_of cs n of Some s \<Rightarrow> Some s | None \<Rightarrow> if n = name then Some [] else None)"
    by (simp add: map_add_def split: option.splits)
  with none False show ?thesis
    by (cases "n = name") (simp_all add: open_store_def split: option.splits)
qed

lemma store_lookup_open_store: "store_lookup n u (open_store name cs) = store_lookup n u cs"
  by (simp add: store_lookup_def map_of_open_store)

lemma storage_lookup_append:
  "storage_lookup u (cs @ ds) = (case storage_lookup u cs of Some r \<Rightarrow> Some r | None \<Rightarrow> storage_lookup u ds)"
  by (induction cs) (auto split: option.splits)

lemma storage_lookup_open_store: "storage_lookup u (open_store name cs) = storage_lookup u cs"
  by (simp add: open_store_def storage_lookup_append split: option.splits)

lemma open_store_idem: "name \<in> fst ` set cs \<Longrightarrow> open_store name cs = cs"
  by (simp add: open_store_def)

lemma store_lookup_Some_in_keys: "store_lookup name u cs = Some r \<Longrightarrow> name \<in> fst ` set cs"
proof -
  assume "store_lookup name u cs = Some r"
  then have "map_of cs name \<noteq> None" by (auto simp: store_lookup_def split: option.splits)
  then show ?thesis by (simp add: map_of_eq_None_iff)
qed

lemma keys_put_entry: "map fst (put_entry name u r cs) = map fst cs"
  unfolding put_entry_def by (induction cs) auto

lemma map_of_put_entry_other: "n \<noteq> name \<Longrightarrow> map_of (put_entry name u r cs) n = map_of cs n"
  by (simp add: put_entry_def map_of_map_entry)

lemma store_lookup_put_entry:
  "store_lookup n v (put_entry name u r cs) =
     (if n = name \<and> v = u \<and> name \<in> fst ` set cs then Some r else store_lookup n v cs)"
proof (cases "map_of cs name")
  case None
  then have "name \<notin> fst ` set cs" by (simp add: map_of_eq_None_iff)
  with None show ?thesis by (simp add: store_lookup_def put_entry_def map_of_map_entry)
next
  case (Some s)
  then have "name \<in> fst ` set cs" by (metis map_of_eq_None_iff option.distinct(1))
  with Some show ?thesis
    by (simp add: store_lookup_def put_entry_def map_of_map_entry update_conv')
qed




subsection \<open>What each strategy computes\<close>

lemma cache_or_network_hit:
  "storage_lookup u (caches w) = Some r \<Longrightarrow>
   cache_or_network net u w =
     (Fulfilled (Some r), w\<lparr>trace := trace w @ [CachesMatch u, Settle (Fulfilled (Some r))]\<rparr>)"
  by (simp add: cache_or_network_def caches_match_def emit_def)

lemma cache_or_network_miss:
  "storage_lookup u (caches w) = None \<Longrightarrow>
   cache_or_network net u w =
     ((case net u of Inr n \<Rightarrow> Fulfilled (Some n) | Inl e \<Rightarrow> Rejected e),
      w\<lparr>trace := trace w @ [CachesMatch u, FetchStart u, FetchSettled u,
         Settle (case net u of Inr n \<Rightarrow> Fulfilled (Some n) | Inl e \<Rightarrow> Rejected e)]\<rparr>)"
  by (simp add: cache_or_network_def caches_match_def fetch_def emit_def split: sum.splits)

lemma cache_or_network_caches: "caches (snd (cache_or_network net u w)) = caches w"
  by (cases "storage_lookup u (caches w)") (simp_all add: cache_or_network_hit cache_or_network_miss)

lemma cache_first_hit:
  "storage_lookup u (caches w) = Some r \<Longrightarrow>
   cache_first ver net u w =
     (Fulfilled (Some r), w\<lparr>trace := trace w @ [CachesMatch u, Settle (Fulfilled (Some r))]\<rparr>)"
  by (simp add: cache_first_def caches_match_def emit_def)

lemma cache_first_miss_ok:
  "storage_lookup u (caches w) = None \<Longrightarrow> net u = Inr n \<Longrightarrow>
   cache_first ver net u w =
     (Fulfilled (Some n),
      \<lparr>caches = (if storable u n
                 then put_entry (CACHE_NAME ver) u n (open_store (CACHE_NAME ver) (caches w))
                 else open_store (CACHE_NAME ver) (caches w)),
       trace = trace w @ [CachesMatch u, FetchStart u, FetchSettled u, CachesOpen (CACHE_NAME ver),
                CachePut (CACHE_NAME ver) u n, Settle (Fulfilled (Some n))]\<rparr>)"
  by (simp add: cache_first_def caches_match_def fetch_def caches_open_def cache_put_def emit_def)

lemma cache_first_miss_fail:
  "storage_lookup u (caches w) = None \<Longrightarrow> net u = Inl e \<Longrightarrow>
   cache_first ver net u w =
     (Rejected e,
      w\<lparr>trace := trace w @ [CachesMatch u, FetchStart u, FetchSettled u, Settle (Rejected e)]\<rparr>)"
  by (simp add: cache_first_def caches_match_def fetch_def emit_def)

lemma cache_first_caches:
  "caches (snd (cache_first ver net u w)) = caches w \<or>
   caches (snd (cache_first ver net u w)) = open_store (CACHE_NAME ver) (caches w) \<or>
   (\<exists>n. caches (snd (cache_first ver net u w)) =
          put_entry (CACHE_NAME ver) u n (open_store (CACHE_NAME ver) (caches w)))"
proof (cases "storage_lookup u (caches w)")
  case (Some r)
  then show ?thesis by (simp add: cache_first_hit)
next
  case None
  then show ?thesis
    by (cases "net u") (auto simp: cache_first_miss_ok cache_first_miss_fail)
qed


lemma swr_hit:
  "store_lookup (CACHE_NAME ver) (url req) (caches w) = Some c \<Longrightarrow>
   staleWhileRevalidate ver net req w =
     (Fulfilled (Some c),
      \<lparr>caches = (case net (url req) of
                   Inr n \<Rightarrow> if status n = 200 \<and> storable (url req) n
                            then put_entry (CACHE_NAME ver) (url req) n (caches w)
                            else caches w
                 | Inl e \<Rightarrow> caches w),
       trace = trace w @
         [CachesOpen (CACHE_NAME ver), CacheMatch (CACHE_NAME ver) (url req), FetchStart (url req),
          Settle (Fulfilled (Some c)), FetchSettled (url req)] @
         (case net (url req) of
            Inr n \<Rightarrow> if status n = 200 then [CachePut (CACHE_NAME ver) (url req) n] else []
          | Inl e \<Rightarrow> [])\<rparr>)"
proof -
  assume c: "store_lookup (CACHE_NAME ver) (url req) (caches w) = Some c"
  then have "open_store (CACHE_NAME ver) (caches w) = caches w"
    by (simp add: open_store_idem store_lookup_Some_in_keys)
  with c show ?thesis
    by (simp add: staleWhileRevalidate_def revalidate_def caches_open_def cache_match_def
          cache_put_def emit_def Let_def split: sum.splits)
qed

lemma swr_miss:
  "store_lookup (CACHE_NAME ver) (url req) (caches w) = None \<Longrightarrow>
   staleWhileRevalidate ver net req w =
     (Fulfilled (case net (url req) of Inr n \<Rightarrow> Some n | Inl e \<Rightarrow> None),
      \<lparr>caches = (case net (url req) of
                   Inr n \<Rightarrow> if status n = 200 \<and> storable (url req) n
                            then put_entry (CACHE_NAME ver) (url req) n (open_store (CACHE_NAME ver) (caches w))
                            else open_store (CACHE_NAME ver) (caches w)
                 | Inl e \<Rightarrow> open_store (CACHE_NAME ver) (caches w)),
       trace = trace w @
         [CachesOpen (CACHE_NAME ver), CacheMatch (CACHE_NAME ver) (url req), FetchStart (url req),
          FetchSettled (url req)] @
         (case net (url req) of
            Inr n \<Rightarrow> if status n = 200 then [CachePut (CACHE_NAME ver) (url req) n] else []
          | Inl e \<Rightarrow> []) @
         [Settle (Fulfilled (case net (url req) of Inr n \<Rightarrow> Some n | Inl e \<Rightarrow> None))]\<rparr>)"
  by (simp add: staleWhileRevalidate_def revalidate_def caches_open_def cache_match_def
        cache_put_def emit_def Let_def store_lookup_open_store split: sum.splits)

lemma swr_caches:
  "caches (snd (staleWhileRevalidate ver net req w)) =
     (case net (url req) of
        Inr n \<Rightarrow> if status n = 200 \<and> storable (url req) n
                 then put_entry (CACHE_NAME ver) (url req) n (open_store (CACHE_NAME ver) (caches w))
                 else open_store (CACHE_NAME ver) (caches w)
      | Inl e \<Rightarrow> open_store (CACHE_NAME ver) (caches w))"
proof (cases "store_lookup (CACHE_NAME ver) (url req) (caches w)")
  case None
  then show ?thesis by (simp add: swr_miss)
next
  case (Some c)
  then have "open_store (CACHE_NAME ver) (caches w) = caches w"
    by (simp add: open_store_idem store_lookup_Some_in_keys)
  with Some show ?thesis by (simp add: swr_hit split: sum.splits)
qed


subsection \<open>Where the fetch handlers send a request\<close>

lemma fetch_handler_style:
  "req_method req = ''GET'' \<Longrightarrow> is_style req \<Longrightarrow>
   fetch_handler ver net req w =
     (Some (fst (cache_first ver net (url req) w)), snd (cache_first ver net (url req) w))"
  by (simp add: fetch_handler_def split: prod.splits)

lemma fetch_handler_image:
  "req_method req = ''GET'' \<Longrightarrow> \<not> is_style req \<Longrightarrow> is_image req \<Longrightarrow>
   fetch_handler ver net req w =
     (Some (fst (staleWhileRevalidate ver net req w)), snd (staleWhileRevalidate ver net req w))"
  by (simp add: fetch_handler_def split: prod.splits)

lemma fetch_handler_default:
  "req_method req = ''GET'' \<Longrightarrow> \<not> is_style req \<Longrightarrow> \<not> is_image req \<Longrightarrow>
   fetch_handler ver net req w =
     (Some (fst (cache_or_network net (url req) w)), snd (cache_or_network net (url req) w))"
  by (simp add: fetch_handler_def split: prod.splits)

lemma fetch_handler_part_000_navigate:
  "req_method req = ''GET'' \<Longrightarrow> mode req = ''navigate'' \<Longrightarrow>
   fetch_handler_part_000 ver loc net req w =
     (Some (fst (cache_or_network net (resolve loc ''/index.html'') w)),
      snd (cache_or_network net (resolve loc ''/index.html'') w))"
  by (simp add: fetch_handler_part_000_def split: prod.splits)

lemma fetch_handler_part_000_image:
  "req_method req = ''GET'' \<Longrightarrow> mode req \<noteq> ''navigate'' \<Longrightarrow> is_image req \<Longrightarrow>
   fetch_handler_part_000 ver loc net req w =
     (Some (fst (staleWhileRevalidate ver net req w)), snd (staleWhileRevalidate ver net req w))"
  by (simp add: fetch_handler_part_000_def split: prod.splits)

lemma fetch_handler_part_000_default:
  "req_method req = ''GET'' \<Longrightarrow> mode req \<noteq> ''navigate'' \<Longrightarrow> \<not> is_image req \<Longrightarrow>
   fetch_handler_part_000 ver loc net req w =
     (Some (fst (cache_or_network net (url req) w)), snd (cache_or_network net (url req) w))"
  by (simp add: fetch_handler_part_000_def split: prod.splits)

lemma swr_routed:
  assumes "(h = fetch_handler ver net \<and> \<not> is_style req) \<or>
           (h = fetch_handler_part_000 ver loc net \<and> mode req \<noteq> ''navigate'')"
    and "req_method req = ''GET''" and "is_image req"
  shows "h req w = (Some (fst (staleWhileRevalidate ver net req w)),
                    snd (staleWhileRevalidate ver net req w))"
  using assms by (auto simp: fetch_handler_image fetch_handler_part_000_image)

subsection \<open>An entry that stays\<close>


lemma fst_handle_all_Cons:
  "fst (handle_all ver ((net, req) # rest) w) =
     fst (fetch_handler ver net req w) # fst (handle_all ver rest (snd (fetch_handler ver net req w)))"
  by (simp split: prod.splits)

lemma length_handle_all: "length (fst (handle_all ver later w)) = length later"
proof (induction later arbitrary: w)
  case Nil
  then show ?case by simp
next
  case (Cons p later)
  then show ?case by (cases p) (simp add: fst_handle_all_Cons del: handle_all.simps)
qed


subsection \<open>Facts on the lifecycle handlers\<close>

lemma caches_delete_all:
  "caches (foldl (\<lambda>w k. caches_delete k w) w ks) = filter (\<lambda>p. fst p \<notin> set ks) (caches w)"
proof (induction ks arbitrary: w)
  case Nil
  then show ?case by simp
next
  case (Cons k ks)
  have "caches (caches_delete k w) = filter (\<lambda>p. k \<noteq> fst p) (caches w)"
    by (simp add: caches_delete_def emit_def AList.delete_eq case_prod_unfold)
  with Cons.IH [of "caches_delete k w"] show ?case
    by (auto intro: filter_cong)
qed

lemma activate_caches:
  "caches (activate_handler ver w) = filter (\<lambda>p. fst p = CACHE_NAME ver) (caches w)"
proof -
  have "caches (activate_handler ver w) =
      filter (\<lambda>p. fst p \<notin> set (filter (\<lambda>k. k \<noteq> CACHE_NAME ver) (map fst (caches w)))) (caches w)"
    by (simp add: activate_handler_def caches_keys_def caches_delete_all emit_def)
  also have "\<dots> = filter (\<lambda>p. fst p = CACHE_NAME ver) (caches w)"
    by (rule filter_cong) auto
  finally show ?thesis .
qed

lemma filter_eq_distinct:
  "distinct xs \<Longrightarrow> filter (\<lambda>x. x = a) xs = (if a \<in> set xs then [a] else [])"
  by (induction xs) auto

lemma activate_keys:
  assumes "distinct (map fst (caches w))"
  shows "map fst (caches (activate_handler ver w)) =
           (if CACHE_NAME ver \<in> set (map fst (caches w)) then [CACHE_NAME ver] else [])"
proof -
  have "map fst (caches (activate_handler ver w)) =
      filter (\<lambda>k. k = CACHE_NAME ver) (map fst (caches w))"
    by (simp add: activate_caches filter_map comp_def)
  with assms show ?thesis by (simp add: filter_eq_distinct)
qed

lemma map_of_filter_key: "map_of (filter (\<lambda>p. fst p = k) cs) k = map_of cs k"
  by (induction cs) auto

lemma activate_keeps_active:
  "store_lookup (CACHE_NAME ver) u (caches (activate_handler ver w)) =
     store_lookup (CACHE_NAME ver) u (caches w)"
  by (simp add: store_lookup_def activate_caches map_of_filter_key)

lemma keys_put_all: "map fst (put_all name rs cs) = map fst cs"
  by (induction name rs cs rule: put_all.induct) (simp_all add: keys_put_entry)

lemma install_keys:
  "map fst (caches (snd (install_handler assets ver loc net w))) =
     map fst (open_store (CACHE_NAME ver) (caches w))"
  by (simp add: install_handler_def cache_addAll_def caches_open_def emit_def keys_put_all
        Let_def split: option.splits)

lemma fetch_all_fails:
  "u \<in> set us \<Longrightarrow> net u = Inl e \<Longrightarrow> fetch_all net us = None"
  by (induction us) (auto split: sum.splits)

lemma CACHE_NAME_inject: "CACHE_NAME a = CACHE_NAME b \<longleftrightarrow> a = b"
  by (simp add: CACHE_NAME_def)

subsection \<open>Which stores a fetch handler touches\<close>

lemma cache_or_network_events:
  "e \<in> set (new_events w (snd (cache_or_network net u w))) \<Longrightarrow> named_store e = None"
  by (cases "storage_lookup u (caches w)")
    (auto simp: cache_or_network_hit cache_or_network_miss new_events_def)

lemma cache_first_events:
  "e \<in> set (new_events w (snd (cache_first ver net u w))) \<Longrightarrow>
   named_store e = None \<or> named_store e = Some (CACHE_NAME ver)"
proof (cases "storage_lookup u (caches w)")
  case (Some r)
  assume "e \<in> set (new_events w (snd (cache_first ver net u w)))"
  with Some show ?thesis by (auto simp: cache_first_hit new_events_def)
next
  case None
  assume "e \<in> set (new_events w (snd (cache_first ver net u w)))"
  with None show ?thesis
    by (cases "net u") (auto simp: cache_first_miss_ok cache_first_miss_fail new_events_def)
qed

lemma swr_events:
  "e \<in> set (new_events w (snd (staleWhileRevalidate ver net req w))) \<Longrightarrow>
   named_store e = None \<or> named_store e = Some (CACHE_NAME ver)"
proof (cases "store_lookup (CACHE_NAME ver) (url req) (caches w)")
  case (Some c)
  assume "e \<in> set (new_events w (snd (staleWhileRevalidate ver net req w)))"
  with Some show ?thesis
    by (cases "net (url req)") (auto simp: swr_hit new_events_def split: if_splits)
next
  case None
  assume "e \<in> set (new_events w (snd (staleWhileRevalidate ver net req w)))"
  with None show ?thesis
    by (cases "net (url req)") (auto simp: swr_miss new_events_def split: if_splits)
qed

lemma handler_steps:
  assumes "h = fetch_handler ver net \<or> h = fetch_handler_part_000 ver loc net"
  shows "(caches (snd (h req w)) = caches w \<or>
          caches (snd (h req w)) = open_store (CACHE_NAME ver) (caches w) \<or>
          (\<exists>u n. caches (snd (h req w)) =
                  put_entry (CACHE_NAME ver) u n (open_store (CACHE_NAME ver) (caches w)))) \<and>
         (\<forall>e \<in> set (new_events w (snd (h req w))).
            named_store e = None \<or> named_store e = Some (CACHE_NAME ver))"
proof -
  have nothing: "caches w' = caches w \<and> (\<forall>e \<in> set (new_events w w'). named_store e = None)"
    if "w' = w" for w'
    using that by (simp add: new_events_def)
  have default: "caches (snd (cache_or_network net u w)) = caches w \<and>
      (\<forall>e \<in> set (new_events w (snd (cache_or_network net u w))). named_store e = None)" for u
    by (simp add: cache_or_network_caches cache_or_network_events)
  have style: "(caches (snd (cache_first ver net u w)) = caches w \<or>
      caches (snd (cache_first ver net u w)) = open_store (CACHE_NAME ver) (caches w) \<or>
      (\<exists>n. caches (snd (cache_first ver net u w)) =
             put_entry (CACHE_NAME ver) u n (open_store (CACHE_NAME ver) (caches w)))) \<and>
      (\<forall>e \<in> set (new_events w (snd (cache_first ver net u w))).
         named_store e = None \<or> named_store e = Some (CACHE_NAME ver))" for u
    using cache_first_caches [of ver net u w] by (simp add: cache_first_events)
  have image: "(caches (snd (staleWhileRevalidate ver net req w)) = open_store (CACHE_NAME ver) (caches w) \<or>
      (\<exists>n. caches (snd (staleWhileRevalidate ver net req w)) =
             put_entry (CACHE_NAME ver) (url req) n (open_store (CACHE_NAME ver) (caches w)))) \<and>
      (\<forall>e \<in> set (new_events w (snd (staleWhileRevalidate ver net req w))).
         named_store e = None \<or> named_store e = Some (CACHE_NAME ver))"
    by (auto simp: swr_caches swr_events split: sum.splits)
  have new_nil: "new_events w w = []"
    by (simp add: new_events_def)
  from assms show ?thesis
  proof
    assume h: "h = fetch_handler ver net"
    show ?thesis
    proof (cases "req_method req = ''GET''")
      case False
      then show ?thesis by (simp add: h fetch_handler_def new_nil)
    next
      case get: True
      show ?thesis
      proof (cases "is_style req")
        case True
        with get style [of "url req"] show ?thesis
          by (simp add: h fetch_handler_style) blast
      next
        case nostyle: False
        show ?thesis
        proof (cases "is_image req")
          case True
          with get nostyle image show ?thesis
            by (simp add: h fetch_handler_image) blast
        next
          case False
          with get nostyle default [of "url req"] show ?thesis
            by (simp add: h fetch_handler_default)
        qed
      qed
    qed
  next
    assume h: "h = fetch_handler_part_000 ver loc net"
    show ?thesis
    proof (cases "req_method req = ''GET''")
      case False
      then show ?thesis by (simp add: h fetch_handler_part_000_def new_nil)
    next
      case get: True
      show ?thesis
      proof (cases "mode req = ''navigate''")
        case True
        with get default [of "resolve loc ''/index.html''"] show ?thesis
          by (simp add: h fetch_handler_part_000_navigate)
      next
        case nonav: False
        show ?thesis
        proof (cases "is_image req")
          case True
          with get nonav image show ?thesis
            by (simp add: h fetch_handler_part_000_image) blast
        next
          case False
          with get nonav default [of "url req"] show ?thesis
            by (simp add: h fetch_handler_part_000_default)
        qed
      qed
    qed
  qed
qed

lemma swr_answer:
  "fst (staleWhileRevalidate ver net req w) =
     Fulfilled (case store_lookup (CACHE_NAME ver) (url req) (caches w) of
                  Some c \<Rightarrow> Some c
                | None \<Rightarrow> (case net (url req) of Inr n \<Rightarrow> Some n | Inl e \<Rightarrow> None))"
  by (cases "store_lookup (CACHE_NAME ver) (url req) (caches w)") (simp_all add: swr_hit swr_miss)

lemma swr_calls:
  "take 2 (new_events w (snd (staleWhileRevalidate ver net req w))) =
     [CachesOpen (CACHE_NAME ver), CacheMatch (CACHE_NAME ver) (url req)] \<and>
   filter searches_all (new_events w (snd (staleWhileRevalidate ver net req w))) = [] \<and>
   filter removes_store (new_events w (snd (staleWhileRevalidate ver net req w))) = []"
  by (cases "store_lookup (CACHE_NAME ver) (url req) (caches w)"; cases "net (url req)")
    (simp_all add: swr_hit swr_miss new_events_def)

lemma cache_or_network_answer:
  "fst (cache_or_network net u w) =
     (case storage_lookup u (caches w) of
        Some r \<Rightarrow> Fulfilled (Some r)
      | None \<Rightarrow> (case net u of Inr n \<Rightarrow> Fulfilled (Some n) | Inl e \<Rightarrow> Rejected e))"
  by (cases "storage_lookup u (caches w)") (simp_all add: cache_or_network_hit cache_or_network_miss)

lemma cache_or_network_calls:
  "filter searches_all (new_events w (snd (cache_or_network net u w))) = [CachesMatch u] \<and>
   filter removes_store (new_events w (snd (cache_or_network net u w))) = []"
  by (cases "storage_lookup u (caches w)")
    (simp_all add: cache_or_network_hit cache_or_network_miss new_events_def)

lemma cache_first_answer:
  "fst (cache_first ver net u w) =
     (case storage_lookup u (caches w) of
        Some r \<Rightarrow> Fulfilled (Some r)
      | None \<Rightarrow> (case net u of Inr n \<Rightarrow> Fulfilled (Some n) | Inl e \<Rightarrow> Rejected e))"
  by (cases "storage_lookup u (caches w)"; cases "net u")
    (simp_all add: cache_first_hit cache_first_miss_ok cache_first_miss_fail)

lemma cache_first_calls:
  "filter searches_all (new_events w (snd (cache_first ver net u w))) = [CachesMatch u] \<and>
   filter removes_store (new_events w (snd (cache_first ver net u w))) = []"
  by (cases "storage_lookup u (caches w)"; cases "net u")
    (simp_all add: cache_first_hit cache_first_miss_ok cache_first_miss_fail new_events_def)

lemma handler_never_deletes:
  assumes "h = fetch_handler ver net \<or> h = fetch_handler_part_000 ver loc net"
  shows "filter removes_store (new_events w (snd (h req w))) = []"
proof -
  have new_nil: "new_events w w = []"
    by (simp add: new_events_def)
  from assms show ?thesis
  proof
    assume h: "h = fetch_handler ver net"
    show ?thesis
    proof (cases "req_method req = ''GET''")
      case False
      then show ?thesis by (simp add: h fetch_handler_def new_nil)
    next
      case get: True
      show ?thesis
      proof (cases "is_style req")
        case True
        with get show ?thesis by (simp add: h fetch_handler_style cache_first_calls)
      next
        case nostyle: False
        with get show ?thesis
          by (cases "is_image req")
            (simp_all add: h fetch_handler_image fetch_handler_default swr_calls
               cache_or_network_calls)
      qed
    qed
  next
    assume h: "h = fetch_handler_part_000 ver loc net"
    show ?thesis
    proof (cases "req_method req = ''GET''")
      case False
      then show ?thesis by (simp add: h fetch_handler_part_000_def new_nil)
    next
      case get: True
      show ?thesis
      proof (cases "mode req = ''navigate''")
        case True
        with get show ?thesis
          by (simp add: h fetch_handler_part_000_navigate cache_or_network_calls)
      next
        case nonav: False
        with get show ?thesis
          by (cases "is_image req")
            (simp_all add: h fetch_handler_part_000_image fetch_handler_part_000_default
               swr_calls cache_or_network_calls)
      qed
    qed
  qed
qed

lemma map_of_put_all_other:
  "n \<noteq> name \<Longrightarrow> map_of (put_all name rs cs) n = map_of cs n"
  by (induction name rs cs rule: put_all.induct) (simp_all add: map_of_put_entry_other)

lemma install_scoped:
  "map fst (caches (snd (install_handler assets ver loc net w))) =
     map fst (open_store (CACHE_NAME ver) (caches w)) \<and>
   (\<forall>name. name \<noteq> CACHE_NAME ver \<longrightarrow>
      map_of (caches (snd (install_handler assets ver loc net w))) name = map_of (caches w) name) \<and>
   new_events w (snd (install_handler assets ver loc net w)) =
     [CachesOpen (CACHE_NAME ver), SkipWaiting,
      CacheAddAll (CACHE_NAME ver) (map (resolve loc) assets)]"
  by (simp add: install_keys)
    (simp add: install_handler_def cache_addAll_def caches_open_def emit_def new_events_def
       map_of_put_all_other map_of_open_store Let_def split: option.splits)

lemma trace_delete_all:
  "trace (foldl (\<lambda>w k. caches_delete k w) w ks) = trace w @ map CachesDelete ks"
  by (induction ks arbitrary: w) (simp_all add: caches_delete_def emit_def)

lemma activate_calls:
  "new_events w (activate_handler ver w) =
     [CachesKeys, ClientsClaim] @
     map CachesDelete (filter (\<lambda>k. k \<noteq> CACHE_NAME ver) (map fst (caches w)))"
  by (simp add: activate_handler_def caches_keys_def trace_delete_all emit_def new_events_def)

section \<open>The claims\<close>




text \<open>
  C2, as the claim states it, fails in its last part. With an entry in the active store
  and a network that answers with status 204, a fetch that succeeded, the entry after
  the request is still the old one; and so it is when the network answers with status
  200 and a \<^verbatim>\<open>Vary\<close> header that lists \<^verbatim>\<open>*\<close>, which the platform refuses to store.
\<close>

theorem stale_while_revalidate_counterexample:
  "req_method photo_request = ''GET'' \<and> is_image photo_request \<and> \<not> is_style photo_request \<and>
   ok (page 204 []) \<and>
   fst (fetch_handler CACHE_VERSION (serving (page 204 [])) photo_request
          (holding [(''oha-v2'', [(url photo_request, page 200 ''stale'')])]))
     = Some (Fulfilled (Some (page 200 ''stale''))) \<and>
   store_lookup (CACHE_NAME CACHE_VERSION) (url photo_request)
       (caches (snd (fetch_handler CACHE_VERSION (serving (page 204 [])) photo_request
                       (holding [(''oha-v2'', [(url photo_request, page 200 ''stale'')])]))))
     = Some (page 200 ''stale'') \<and>
   page 200 ''stale'' \<noteq> page 204 [] \<and>
   ok (with_header ''Vary'' ''*'' (page 200 ''new'')) \<and>
   store_lookup (CACHE_NAME CACHE_VERSION) (url photo_request)
       (caches (snd (fetch_handler CACHE_VERSION (serving (with_header ''Vary'' ''*'' (page 200 ''new'')))
                       photo_request
                       (holding [(''oha-v2'', [(url photo_request, page 200 ''stale'')])]))))
     = Some (page 200 ''stale'') \<and>
   page 200 ''stale'' \<noteq> with_header ''Vary'' ''*'' (page 200 ''new'')"
  by (simp add: site_def get_request_def photo_request_def page_def serving_def with_header_def
        holding_def resolve_def CACHE_NAME_def CACHE_VERSION_def is_style_def is_image_def
        suffix_to_prefix ok_def fetch_handler_def staleWhileRevalidate_def revalidate_def
        caches_open_def cache_match_def cache_put_def open_store_def store_lookup_def emit_def
        storable_def http_scheme_def vary_star_def lower_def trim_def blank_def Let_def)

text \<open>
  C2, amended. Stale-while-revalidate, in both variants. When the active store holds an
  entry for a GET request for an image, the answer is that entry, whatever the network
  does, and the promise settles after the fetch was started and before the fetch
  settles. Once the fetch has settled, the entry is the response of the network when
  that has status 200 and the platform accepts the put; in every other case (a failed
  fetch, any other status, a refused put) the stores are as they were and the entry is
  the old one.
\<close>

theorem stale_while_revalidate_cached:
  assumes "(h = fetch_handler ver net \<and> \<not> is_style req) \<or>
           (h = fetch_handler_part_000 ver loc net \<and> mode req \<noteq> ''navigate'')"
    and "req_method req = ''GET''" and "is_image req"
    and "store_lookup (CACHE_NAME ver) (url req) (caches w) = Some c"
  shows "fst (h req w) = Some (Fulfilled (Some c)) \<and>
         take 5 (new_events w (snd (h req w))) =
           [CachesOpen (CACHE_NAME ver), CacheMatch (CACHE_NAME ver) (url req),
            FetchStart (url req), Settle (Fulfilled (Some c)), FetchSettled (url req)] \<and>
         (\<forall>n. net (url req) = Inr n \<and> status n = 200 \<and> storable (url req) n \<longrightarrow>
            store_lookup (CACHE_NAME ver) (url req) (caches (snd (h req w))) = Some n) \<and>
         ((\<forall>n. net (url req) = Inr n \<longrightarrow> status n \<noteq> 200 \<or> \<not> storable (url req) n) \<longrightarrow>
            caches (snd (h req w)) = caches w \<and>
            store_lookup (CACHE_NAME ver) (url req) (caches (snd (h req w))) = Some c)"
proof -
  have h: "h req w = (Some (fst (staleWhileRevalidate ver net req w)),
                      snd (staleWhileRevalidate ver net req w))"
    using assms(1,2,3) by (rule swr_routed)
  have held: "CACHE_NAME ver \<in> fst ` set (caches w)"
    using assms(4) by (rule store_lookup_Some_in_keys)
  have "fst (h req w) = Some (Fulfilled (Some c))"
    using assms(4) by (simp add: h swr_hit)
  moreover have "take 5 (new_events w (snd (h req w))) =
      [CachesOpen (CACHE_NAME ver), CacheMatch (CACHE_NAME ver) (url req),
       FetchStart (url req), Settle (Fulfilled (Some c)), FetchSettled (url req)]"
    using assms(4) by (simp add: h swr_hit new_events_def)
  moreover have "store_lookup (CACHE_NAME ver) (url req) (caches (snd (h req w))) = Some n"
    if "net (url req) = Inr n" and "status n = 200" and "storable (url req) n" for n
    using assms(4) that held by (simp add: h swr_hit store_lookup_put_entry)
  moreover have "caches (snd (h req w)) = caches w \<and>
      store_lookup (CACHE_NAME ver) (url req) (caches (snd (h req w))) = Some c"
    if "\<forall>n. net (url req) = Inr n \<longrightarrow> status n \<noteq> 200 \<or> \<not> storable (url req) n"
    using assms(4) that by (cases "net (url req)") (auto simp: h swr_hit)
  ultimately show ?thesis by blast
qed

theorem stale_while_revalidate_cached_witness:
  "req_method photo_request = ''GET'' \<and> is_image photo_request \<and> \<not> is_style photo_request \<and>
   mode photo_request \<noteq> ''navigate'' \<and>
   store_lookup (CACHE_NAME CACHE_VERSION) (url photo_request)
       (caches (holding [(''oha-v2'', [(url photo_request, page 200 ''stale'')])]))
     = Some (page 200 ''stale'') \<and>
   storable (url photo_request) (page 200 ''new'') \<and>
   fst (fetch_handler CACHE_VERSION (serving (page 200 ''new'')) photo_request
          (holding [(''oha-v2'', [(url photo_request, page 200 ''stale'')])]))
     = Some (Fulfilled (Some (page 200 ''stale''))) \<and>
   store_lookup (CACHE_NAME CACHE_VERSION) (url photo_request)
       (caches (snd (fetch_handler CACHE_VERSION (serving (page 200 ''new'')) photo_request
                       (holding [(''oha-v2'', [(url photo_request, page 200 ''stale'')])]))))
     = Some (page 200 ''new'') \<and>
   fst (fetch_handler_part_000 CACHE_VERSION site (serving (page 503 ''down'')) photo_request
          (holding [(''oha-v2'', [(url photo_request, page 200 ''stale'')])]))
     = Some (Fulfilled (Some (page 200 ''stale''))) \<and>
   caches (snd (fetch_handler_part_000 CACHE_VERSION site (serving (page 503 ''down'')) photo_request
                  (holding [(''oha-v2'', [(url photo_request, page 200 ''stale'')])])))
     = [(''oha-v2'', [(url photo_request, page 200 ''stale'')])]"
proof -
  let ?w = "holding [(''oha-v2'', [(url photo_request, page 200 ''stale'')])]"
  have get: "req_method photo_request = ''GET''" and image: "is_image photo_request"
    and nostyle: "\<not> is_style photo_request" and nonav: "mode photo_request \<noteq> ''navigate''"
    by (simp_all add: site_def get_request_def photo_request_def resolve_def is_style_def
          is_image_def suffix_to_prefix)
  have held: "store_lookup (CACHE_NAME CACHE_VERSION) (url photo_request) (caches ?w)
      = Some (page 200 ''stale'')"
    by (simp add: holding_def CACHE_NAME_def CACHE_VERSION_def store_lookup_def)
  have ok: "storable (url photo_request) (page 200 ''new'')"
    by (simp add: storable_def http_scheme_def vary_star_def page_def site_def get_request_def
          photo_request_def resolve_def)
  have new: "serving (page 200 ''new'') (url photo_request) = Inr (page 200 ''new'') \<and>
      status (page 200 ''new'') = 200"
    by (simp add: serving_def page_def)
  have down: "\<forall>n. serving (page 503 ''down'') (url photo_request) = Inr n \<longrightarrow>
      status n \<noteq> 200 \<or> \<not> storable (url photo_request) n"
    by (simp add: serving_def page_def)
  from stale_while_revalidate_cached
      [where h = "fetch_handler CACHE_VERSION (serving (page 200 ''new''))"
         and ver = CACHE_VERSION and net = "serving (page 200 ''new'')" and req = photo_request
         and w = ?w and c = "page 200 ''stale''" and loc = site, OF _ get image held]
    nostyle new ok
  have a: "fst (fetch_handler CACHE_VERSION (serving (page 200 ''new'')) photo_request ?w)
      = Some (Fulfilled (Some (page 200 ''stale''))) \<and>
    store_lookup (CACHE_NAME CACHE_VERSION) (url photo_request)
       (caches (snd (fetch_handler CACHE_VERSION (serving (page 200 ''new'')) photo_request ?w)))
      = Some (page 200 ''new'')"
    by blast
  from stale_while_revalidate_cached
      [where h = "fetch_handler_part_000 CACHE_VERSION site (serving (page 503 ''down''))"
         and ver = CACHE_VERSION and net = "serving (page 503 ''down'')" and req = photo_request
         and w = ?w and c = "page 200 ''stale''" and loc = site, OF _ get image held]
    nonav down
  have b: "fst (fetch_handler_part_000 CACHE_VERSION site (serving (page 503 ''down'')) photo_request ?w)
      = Some (Fulfilled (Some (page 200 ''stale''))) \<and>
    caches (snd (fetch_handler_part_000 CACHE_VERSION site (serving (page 503 ''down''))
                   photo_request ?w)) = caches ?w"
    by blast
  from get image nostyle nonav held ok a b show ?thesis by (simp add: holding_def)
qed

text \<open>
  C3. After the activate handler has run, every store left is named for the current
  version: with distinct store names, exactly the active store exists when it existed
  before, and no store at all when it did not; the entries of the active store are as
  they were. Installing and then activating a version, as a version bump does, leaves
  the store of that version and no store of any other version.
\<close>

theorem activate_leaves_active_store_only:
  assumes "distinct (map fst (caches w))"
  shows "map fst (caches (activate_handler ver w)) =
           (if CACHE_NAME ver \<in> set (map fst (caches w)) then [CACHE_NAME ver] else []) \<and>
         (\<forall>u. store_lookup (CACHE_NAME ver) u (caches (activate_handler ver w)) =
               store_lookup (CACHE_NAME ver) u (caches w)) \<and>
         map fst (caches (activate_handler ver (snd (install_handler assets ver loc net w))))
           = [CACHE_NAME ver] \<and>
         (\<forall>old. old \<noteq> ver \<longrightarrow>
            CACHE_NAME old \<notin>
              set (map fst (caches (activate_handler ver (snd (install_handler assets ver loc net w))))))"
proof -
  let ?w1 = "snd (install_handler assets ver loc net w)"
  have keys1: "map fst (caches ?w1) = map fst (open_store (CACHE_NAME ver) (caches w))"
    by (rule install_keys)
  have "distinct (map fst (caches ?w1))"
    using assms by (auto simp: keys1 keys_open_store)
  moreover have "CACHE_NAME ver \<in> set (map fst (caches ?w1))"
    by (simp add: keys1 keys_open_store)
  ultimately have bump: "map fst (caches (activate_handler ver ?w1)) = [CACHE_NAME ver]"
    by (simp add: activate_keys)
  then have "CACHE_NAME old \<notin> set (map fst (caches (activate_handler ver ?w1)))"
    if "old \<noteq> ver" for old
    using that by (simp add: CACHE_NAME_inject)
  with bump activate_keys [OF assms] show ?thesis
    by (simp add: activate_keeps_active)
qed

theorem activate_leaves_active_store_only_witness:
  "distinct (map fst (caches (holding [(''oha-v1'', []), (''oha-v2'', [(url css_request, page 200 ''css'')])]))) \<and>
   map fst (caches (activate_handler ''v2''
       (holding [(''oha-v1'', []), (''oha-v2'', [(url css_request, page 200 ''css'')])]))) = [''oha-v2''] \<and>
   store_lookup ''oha-v2'' (url css_request)
       (caches (activate_handler ''v2''
          (holding [(''oha-v1'', []), (''oha-v2'', [(url css_request, page 200 ''css'')])])))
     = Some (page 200 ''css'') \<and>
   map fst (caches (activate_handler ''v3''
       (snd (install_handler CORE_ASSETS ''v3'' site (serving (page 200 ''asset''))
          (holding [(''oha-v1'', []), (''oha-v2'', [(url css_request, page 200 ''css'')])])))))
     = [''oha-v3''] \<and>
   ''oha-v2'' \<notin> set (map fst (caches (activate_handler ''v3''
       (snd (install_handler CORE_ASSETS ''v3'' site (serving (page 200 ''asset''))
          (holding [(''oha-v1'', []), (''oha-v2'', [(url css_request, page 200 ''css'')])]))))))"
proof -
  let ?w = "holding [(''oha-v1'', []), (''oha-v2'', [(url css_request, page 200 ''css'')])]"
  have d: "distinct (map fst (caches ?w))"
    by (simp add: holding_def)
  have old: "''v2'' \<noteq> ''v3''" by simp
  from activate_leaves_active_store_only [OF d, of "''v2''" CORE_ASSETS site "serving (page 200 ''asset'')"]
  have a: "map fst (caches (activate_handler ''v2'' ?w)) = [''oha-v2''] \<and>
      store_lookup ''oha-v2'' (url css_request) (caches (activate_handler ''v2'' ?w))
        = Some (page 200 ''css'')"
    by (simp add: holding_def CACHE_NAME_def store_lookup_def)
  from activate_leaves_active_store_only [OF d, of "''v3''" CORE_ASSETS site "serving (page 200 ''asset'')"] old
  have b: "map fst (caches (activate_handler ''v3''
        (snd (install_handler CORE_ASSETS ''v3'' site (serving (page 200 ''asset'')) ?w)))) = [''oha-v3''] \<and>
      ''oha-v2'' \<notin> set (map fst (caches (activate_handler ''v3''
        (snd (install_handler CORE_ASSETS ''v3'' site (serving (page 200 ''asset'')) ?w)))))"
    by (simp add: CACHE_NAME_def)
  from d a b show ?thesis by blast
qed

text \<open>
  C4. A request whose method is not GET is not intercepted: the handler returns without
  calling \<^verbatim>\<open>respondWith\<close>, and the world is the one it started in, so no store was read or
  written and no call of the storage was recorded. This holds for both variants.
\<close>

theorem non_get_pass_through:
  assumes "req_method req \<noteq> ''GET''"
  shows "fetch_handler ver net req w = (None, w) \<and>
         fetch_handler_part_000 ver loc net req w = (None, w)"
  using assms by (simp add: fetch_handler_def fetch_handler_part_000_def)

theorem non_get_pass_through_witness:
  "req_method post_request \<noteq> ''GET'' \<and>
   fetch_handler CACHE_VERSION (serving (page 200 ''body'')) post_request
       (holding [(''oha-v2'', [])]) = (None, holding [(''oha-v2'', [])]) \<and>
   fetch_handler_part_000 CACHE_VERSION site (serving (page 200 ''body'')) post_request
       (holding [(''oha-v2'', [])]) = (None, holding [(''oha-v2'', [])])"
  using non_get_pass_through [of post_request CACHE_VERSION "serving (page 200 ''body'')"
      "holding [(''oha-v2'', [])]" site]
  by (simp add: post_request_def)

text \<open>
  C5. When one URL of the manifest cannot be fetched, the promise the install handler
  gave to \<^verbatim>\<open>waitUntil\<close> is rejected, so the installation fails, and no entry of any store
  has changed: the only trace the attempt leaves is that the store of the version
  exists, empty if it was not there before.
\<close>

theorem install_atomic:
  assumes "p \<in> set assets" and "net (resolve loc p) = Inl e"
  shows "fst (install_handler assets ver loc net w) = Inl AddAllError \<and>
         caches (snd (install_handler assets ver loc net w)) = open_store (CACHE_NAME ver) (caches w) \<and>
         (\<forall>name u. store_lookup name u (caches (snd (install_handler assets ver loc net w)))
                     = store_lookup name u (caches w)) \<and>
         (\<forall>u. storage_lookup u (caches (snd (install_handler assets ver loc net w)))
                 = storage_lookup u (caches w))"
proof -
  from assms have "fetch_all net (map (resolve loc) assets) = None"
    by (intro fetch_all_fails [of "resolve loc p"]) auto
  then have "fst (install_handler assets ver loc net w) = Inl AddAllError"
    and "caches (snd (install_handler assets ver loc net w)) = open_store (CACHE_NAME ver) (caches w)"
    by (simp_all add: install_handler_def cache_addAll_def caches_open_def emit_def Let_def)
  then show ?thesis
    by (simp add: store_lookup_open_store storage_lookup_open_store)
qed

theorem install_atomic_witness:
  "''/favicon.svg'' \<in> set CORE_ASSETS \<and>
   without ''/favicon.svg'' (page 200 ''asset'') (resolve site ''/favicon.svg'') = Inl NetworkError \<and>
   fst (install_handler CORE_ASSETS CACHE_VERSION site (without ''/favicon.svg'' (page 200 ''asset''))
          fresh) = Inl AddAllError \<and>
   caches (snd (install_handler CORE_ASSETS CACHE_VERSION site
                  (without ''/favicon.svg'' (page 200 ''asset'')) fresh)) = [(''oha-v2'', [])] \<and>
   fst (install_handler CORE_ASSETS_part_000 CACHE_VERSION site
          (without ''/favicon.svg'' (page 200 ''asset''))
          (holding [(''oha-v2'', [(url css_request, page 200 ''css'')])])) = Inl AddAllError \<and>
   caches (snd (install_handler CORE_ASSETS_part_000 CACHE_VERSION site
                  (without ''/favicon.svg'' (page 200 ''asset''))
                  (holding [(''oha-v2'', [(url css_request, page 200 ''css'')])])))
     = [(''oha-v2'', [(url css_request, page 200 ''css'')])]"
proof -
  have a: "''/favicon.svg'' \<in> set CORE_ASSETS" and a': "''/favicon.svg'' \<in> set CORE_ASSETS_part_000"
    by (simp_all add: CORE_ASSETS_def CORE_ASSETS_part_000_def)
  have f: "without ''/favicon.svg'' (page 200 ''asset'') (resolve site ''/favicon.svg'') = Inl NetworkError"
    by (simp add: without_def resolve_def)
  from install_atomic
      [where p = "''/favicon.svg''" and assets = CORE_ASSETS and loc = site and e = NetworkError
         and net = "without ''/favicon.svg'' (page 200 ''asset'')" and ver = CACHE_VERSION
         and w = fresh, OF a f]
  have b: "fst (install_handler CORE_ASSETS CACHE_VERSION site (without ''/favicon.svg'' (page 200 ''asset''))
          fresh) = Inl AddAllError \<and>
   caches (snd (install_handler CORE_ASSETS CACHE_VERSION site
                  (without ''/favicon.svg'' (page 200 ''asset'')) fresh)) = [(''oha-v2'', [])]"
    by (simp add: fresh_def open_store_def CACHE_NAME_def CACHE_VERSION_def)
  from install_atomic
      [where p = "''/favicon.svg''" and assets = CORE_ASSETS_part_000 and loc = site
         and e = NetworkError and net = "without ''/favicon.svg'' (page 200 ''asset'')"
         and ver = CACHE_VERSION
         and w = "holding [(''oha-v2'', [(url css_request, page 200 ''css'')])]", OF a' f]
  have c: "fst (install_handler CORE_ASSETS_part_000 CACHE_VERSION site
          (without ''/favicon.svg'' (page 200 ''asset''))
          (holding [(''oha-v2'', [(url css_request, page 200 ''css'')])])) = Inl AddAllError \<and>
   caches (snd (install_handler CORE_ASSETS_part_000 CACHE_VERSION site
                  (without ''/favicon.svg'' (page 200 ''asset''))
                  (holding [(''oha-v2'', [(url css_request, page 200 ''css'')])])))
     = [(''oha-v2'', [(url css_request, page 200 ''css'')])]"
    by (simp add: holding_def open_store_def CACHE_NAME_def CACHE_VERSION_def)
  from a f b c show ?thesis by blast
qed

text \<open>
  C6. Stale-while-revalidate with a failing network, in both variants. When the active
  store holds an entry, the page receives it and the stores are as they were: the
  failure is not seen. When the active store holds none, the promise of
  \<^verbatim>\<open>staleWhileRevalidate\<close> is fulfilled with \<^verbatim>\<open>null\<close>, which reaches the page as a network
  error, and no entry is stored.
\<close>

theorem swr_network_failure:
  assumes "(h = fetch_handler ver net \<and> \<not> is_style req) \<or>
           (h = fetch_handler_part_000 ver loc net \<and> mode req \<noteq> ''navigate'')"
    and "req_method req = ''GET''" and "is_image req"
    and "net (url req) = Inl e"
  shows "(\<forall>c. store_lookup (CACHE_NAME ver) (url req) (caches w) = Some c \<longrightarrow>
            map_option respondWith (fst (h req w)) = Some (Inr c) \<and>
            caches (snd (h req w)) = caches w) \<and>
         (store_lookup (CACHE_NAME ver) (url req) (caches w) = None \<longrightarrow>
            fst (h req w) = Some (Fulfilled None) \<and>
            map_option respondWith (fst (h req w)) = Some (Inl NetworkError) \<and>
            caches (snd (h req w)) = open_store (CACHE_NAME ver) (caches w) \<and>
            store_lookup (CACHE_NAME ver) (url req) (caches (snd (h req w))) = None)"
proof -
  have h: "h req w = (Some (fst (staleWhileRevalidate ver net req w)),
                      snd (staleWhileRevalidate ver net req w))"
    using assms(1,2,3) by (rule swr_routed)
  have "map_option respondWith (fst (h req w)) = Some (Inr c) \<and> caches (snd (h req w)) = caches w"
    if "store_lookup (CACHE_NAME ver) (url req) (caches w) = Some c" for c
    using that assms(4) by (simp add: h swr_hit)
  moreover have "fst (h req w) = Some (Fulfilled None) \<and>
      map_option respondWith (fst (h req w)) = Some (Inl NetworkError) \<and>
      caches (snd (h req w)) = open_store (CACHE_NAME ver) (caches w) \<and>
      store_lookup (CACHE_NAME ver) (url req) (caches (snd (h req w))) = None"
    if "store_lookup (CACHE_NAME ver) (url req) (caches w) = None"
    using that assms(4) by (simp add: h swr_miss store_lookup_open_store)
  ultimately show ?thesis by blast
qed

theorem swr_network_failure_witness:
  "req_method photo_request = ''GET'' \<and> is_image photo_request \<and> \<not> is_style photo_request \<and>
   mode photo_request \<noteq> ''navigate'' \<and> offline (url photo_request) = Inl NetworkError \<and>
   map_option respondWith
       (fst (fetch_handler CACHE_VERSION offline photo_request
               (holding [(''oha-v2'', [(url photo_request, page 200 ''stale'')])])))
     = Some (Inr (page 200 ''stale'')) \<and>
   map_option respondWith
       (fst (fetch_handler_part_000 CACHE_VERSION site offline photo_request
               (holding [(''oha-v2'', [])])))
     = Some (Inl NetworkError) \<and>
   caches (snd (fetch_handler_part_000 CACHE_VERSION site offline photo_request
                  (holding [(''oha-v2'', [])])))
     = [(''oha-v2'', [])]"
proof -
  have get: "req_method photo_request = ''GET''" and image: "is_image photo_request"
    and nostyle: "\<not> is_style photo_request" and nonav: "mode photo_request \<noteq> ''navigate''"
    and off: "offline (url photo_request) = Inl NetworkError"
    by (simp_all add: site_def get_request_def photo_request_def page_def offline_def
          holding_def resolve_def CACHE_NAME_def CACHE_VERSION_def is_style_def is_image_def
          suffix_to_prefix)
  have held: "store_lookup (CACHE_NAME CACHE_VERSION) (url photo_request)
      (caches (holding [(''oha-v2'', [(url photo_request, page 200 ''stale'')])]))
      = Some (page 200 ''stale'')"
    by (simp add: site_def get_request_def photo_request_def page_def offline_def holding_def
          resolve_def CACHE_NAME_def CACHE_VERSION_def is_style_def is_image_def
          suffix_to_prefix store_lookup_def)
  have none: "store_lookup (CACHE_NAME CACHE_VERSION) (url photo_request)
      (caches (holding [(''oha-v2'', [])])) = None \<and>
    open_store (CACHE_NAME CACHE_VERSION) (caches (holding [(''oha-v2'', [])])) = [(''oha-v2'', [])]"
    by (simp add: site_def get_request_def photo_request_def page_def offline_def holding_def
          resolve_def CACHE_NAME_def CACHE_VERSION_def is_style_def is_image_def
          suffix_to_prefix store_lookup_def open_store_def)
  from swr_network_failure
      [where h = "fetch_handler CACHE_VERSION offline" and ver = CACHE_VERSION and net = offline
         and req = photo_request and loc = site and e = NetworkError
         and w = "holding [(''oha-v2'', [(url photo_request, page 200 ''stale'')])]",
       OF _ get image off]
    nostyle held
  have a: "map_option respondWith
       (fst (fetch_handler CACHE_VERSION offline photo_request
               (holding [(''oha-v2'', [(url photo_request, page 200 ''stale'')])])))
     = Some (Inr (page 200 ''stale''))"
    by blast
  from swr_network_failure
      [where h = "fetch_handler_part_000 CACHE_VERSION site offline" and ver = CACHE_VERSION
         and net = offline and req = photo_request and loc = site and e = NetworkError
         and w = "holding [(''oha-v2'', [])]", OF _ get image off]
    nonav none
  have b: "map_option respondWith
       (fst (fetch_handler_part_000 CACHE_VERSION site offline photo_request
               (holding [(''oha-v2'', [])])))
     = Some (Inl NetworkError) \<and>
   caches (snd (fetch_handler_part_000 CACHE_VERSION site offline photo_request
                  (holding [(''oha-v2'', [])])))
     = [(''oha-v2'', [])]"
    by simp
  from get image nostyle nonav off a b show ?thesis by blast
qed

text \<open>
  C7. The default strategy, in both variants. A GET request that reaches the default
  branch is answered with the cached entry when the storage has one, with no fetch; when
  it has none, the request is fetched and the response, or the failure, of the network
  is what the promise settles with. In every case the stores are left as they were.
  With no entry and an unreachable network the page receives a network error.
\<close>

theorem default_strategy:
  assumes "(h = fetch_handler ver net \<and> \<not> is_style req) \<or>
           (h = fetch_handler_part_000 ver loc net \<and> mode req \<noteq> ''navigate'')"
    and "req_method req = ''GET''" and "\<not> is_image req"
  shows "(\<forall>r. storage_lookup (url req) (caches w) = Some r \<longrightarrow>
            h req w = (Some (Fulfilled (Some r)),
                       w\<lparr>trace := trace w @ [CachesMatch (url req), Settle (Fulfilled (Some r))]\<rparr>)) \<and>
         (\<forall>n. storage_lookup (url req) (caches w) = None \<and> net (url req) = Inr n \<longrightarrow>
            h req w = (Some (Fulfilled (Some n)),
                       w\<lparr>trace := trace w @ [CachesMatch (url req), FetchStart (url req),
                          FetchSettled (url req), Settle (Fulfilled (Some n))]\<rparr>)) \<and>
         (\<forall>e. storage_lookup (url req) (caches w) = None \<and> net (url req) = Inl e \<longrightarrow>
            h req w = (Some (Rejected e),
                       w\<lparr>trace := trace w @ [CachesMatch (url req), FetchStart (url req),
                          FetchSettled (url req), Settle (Rejected e)]\<rparr>) \<and>
            respondWith (Rejected e) = Inl NetworkError) \<and>
         caches (snd (h req w)) = caches w"
proof -
  have h: "h req w = (Some (fst (cache_or_network net (url req) w)),
                      snd (cache_or_network net (url req) w))"
    using assms by (auto simp: fetch_handler_default fetch_handler_part_000_default)
  show ?thesis
    by (simp add: h cache_or_network_hit cache_or_network_miss cache_or_network_caches)
qed

theorem default_strategy_witness:
  "req_method json_request = ''GET'' \<and> \<not> is_image json_request \<and> \<not> is_style json_request \<and>
   mode json_request \<noteq> ''navigate'' \<and>
   fetch_handler CACHE_VERSION offline json_request (holding [(''oha-v2'', [])])
     = (Some (Rejected NetworkError),
        \<lparr>caches = [(''oha-v2'', [])],
         trace = [CachesMatch (url json_request), FetchStart (url json_request),
                  FetchSettled (url json_request), Settle (Rejected NetworkError)]\<rparr>) \<and>
   fetch_handler_part_000 CACHE_VERSION site (serving (page 200 ''{}'')) json_request
       (holding [(''oha-v2'', [])])
     = (Some (Fulfilled (Some (page 200 ''{}''))),
        \<lparr>caches = [(''oha-v2'', [])],
         trace = [CachesMatch (url json_request), FetchStart (url json_request),
                  FetchSettled (url json_request), Settle (Fulfilled (Some (page 200 ''{}'')))]\<rparr>) \<and>
   fetch_handler CACHE_VERSION offline json_request
       (holding [(''oha-v2'', [(url json_request, page 200 ''old'')])])
     = (Some (Fulfilled (Some (page 200 ''old''))),
        \<lparr>caches = [(''oha-v2'', [(url json_request, page 200 ''old'')])],
         trace = [CachesMatch (url json_request), Settle (Fulfilled (Some (page 200 ''old'')))]\<rparr>)"
  using
    default_strategy [of "fetch_handler CACHE_VERSION offline" CACHE_VERSION offline
      json_request site "holding [(''oha-v2'', [])]"]
    default_strategy [of "fetch_handler_part_000 CACHE_VERSION site (serving (page 200 ''{}''))"
      CACHE_VERSION "serving (page 200 ''{}'')" json_request site "holding [(''oha-v2'', [])]"]
    default_strategy [of "fetch_handler CACHE_VERSION offline" CACHE_VERSION offline
      json_request site "holding [(''oha-v2'', [(url json_request, page 200 ''old'')])]"]
  by (simp add: site_def get_request_def json_request_def page_def offline_def serving_def
        holding_def resolve_def CACHE_NAME_def CACHE_VERSION_def is_style_def is_image_def
        suffix_to_prefix)

text \<open>
  C8. The app shell of \<^verbatim>\<open>src/unnamed/part_000\<close>. A GET navigation, whatever its URL, is
  answered with the cached entry of \<^verbatim>\<open>/index.html\<close> when the storage has one, and no
  fetch is made; only when it has none is \<^verbatim>\<open>/index.html\<close> fetched, and the outcome of that
  fetch is the answer. Nothing is stored.
\<close>

theorem app_shell_fallback:
  assumes "req_method req = ''GET''" and "mode req = ''navigate''"
  shows "(\<forall>r. storage_lookup (resolve loc ''/index.html'') (caches w) = Some r \<longrightarrow>
            fetch_handler_part_000 ver loc net req w =
              (Some (Fulfilled (Some r)),
               w\<lparr>trace := trace w @ [CachesMatch (resolve loc ''/index.html''),
                                      Settle (Fulfilled (Some r))]\<rparr>)) \<and>
         (storage_lookup (resolve loc ''/index.html'') (caches w) = None \<longrightarrow>
            fetch_handler_part_000 ver loc net req w =
              (Some (case net (resolve loc ''/index.html'') of
                       Inr n \<Rightarrow> Fulfilled (Some n) | Inl e \<Rightarrow> Rejected e),
               w\<lparr>trace := trace w @
                  [CachesMatch (resolve loc ''/index.html''), FetchStart (resolve loc ''/index.html''),
                   FetchSettled (resolve loc ''/index.html''),
                   Settle (case net (resolve loc ''/index.html'') of
                             Inr n \<Rightarrow> Fulfilled (Some n) | Inl e \<Rightarrow> Rejected e)]\<rparr>)) \<and>
         caches (snd (fetch_handler_part_000 ver loc net req w)) = caches w"
  using assms
  by (simp add: fetch_handler_part_000_navigate cache_or_network_hit cache_or_network_miss
        cache_or_network_caches)

theorem app_shell_fallback_witness:
  "req_method about_request = ''GET'' \<and> mode about_request = ''navigate'' \<and>
   fetch_handler_part_000 CACHE_VERSION site offline about_request
       (holding [(''oha-v2'', [(resolve site ''/index.html'', page 200 ''shell'')])])
     = (Some (Fulfilled (Some (page 200 ''shell''))),
        \<lparr>caches = [(''oha-v2'', [(resolve site ''/index.html'', page 200 ''shell'')])],
         trace = [CachesMatch (resolve site ''/index.html''),
                  Settle (Fulfilled (Some (page 200 ''shell'')))]\<rparr>) \<and>
   fetch_handler_part_000 CACHE_VERSION site (serving (page 200 ''index'')) about_request
       (holding [(''oha-v2'', [])])
     = (Some (Fulfilled (Some (page 200 ''index''))),
        \<lparr>caches = [(''oha-v2'', [])],
         trace = [CachesMatch (resolve site ''/index.html''), FetchStart (resolve site ''/index.html''),
                  FetchSettled (resolve site ''/index.html''),
                  Settle (Fulfilled (Some (page 200 ''index'')))]\<rparr>)"
  using
    app_shell_fallback [of about_request site
      "holding [(''oha-v2'', [(resolve site ''/index.html'', page 200 ''shell'')])]"
      CACHE_VERSION offline]
    app_shell_fallback [of about_request site "holding [(''oha-v2'', [])]"
      CACHE_VERSION "serving (page 200 ''index'')"]
  by (simp add: site_def get_request_def about_request_def page_def offline_def serving_def
        holding_def resolve_def CACHE_NAME_def CACHE_VERSION_def is_style_def is_image_def
        suffix_to_prefix)

text \<open>
  C9, as the claim states it, fails twice. A request for a style is answered with an
  entry of the store \<open>oha-v1\<close> while the active store \<open>oha-v2\<close> holds none: the lookup
  read a store that is not the active one. And a request for an image, handled when no
  store exists, leaves the store \<open>oha-v2\<close> behind: a strategy has created a store.
\<close>

theorem store_scoping_counterexample:
  "''oha-v1'' \<noteq> CACHE_NAME CACHE_VERSION \<and>
   store_lookup ''oha-v1'' (url css_request)
       (caches (holding [(''oha-v1'', [(url css_request, page 200 ''old'')]), (''oha-v2'', [])]))
     = Some (page 200 ''old'') \<and>
   store_lookup (CACHE_NAME CACHE_VERSION) (url css_request)
       (caches (holding [(''oha-v1'', [(url css_request, page 200 ''old'')]), (''oha-v2'', [])]))
     = None \<and>
   fst (fetch_handler CACHE_VERSION offline css_request
          (holding [(''oha-v1'', [(url css_request, page 200 ''old'')]), (''oha-v2'', [])]))
     = Some (Fulfilled (Some (page 200 ''old''))) \<and>
   map fst (caches fresh) = [] \<and>
   map fst (caches (snd (fetch_handler CACHE_VERSION offline photo_request fresh))) = [''oha-v2'']"
  by (simp add: site_def get_request_def css_request_def photo_request_def page_def offline_def
        fresh_def holding_def resolve_def CACHE_NAME_def CACHE_VERSION_def is_style_def
        is_image_def suffix_to_prefix fetch_handler_def cache_first_def caches_match_def emit_def
        store_lookup_def staleWhileRevalidate_def revalidate_def caches_open_def cache_match_def
        open_store_def Let_def)

text \<open>
  C9, amended. Handling a request, a fetch handler of either variant deletes no store
  and creates none but the active one; the entries of every store other than the active
  one are left as they were; and every call that names a store (to open it, to look an
  entry up in it, or to put an entry into it) names the active store.
  Stale-while-revalidate reads the active store only: it never searches all stores, and
  its answer is that of the active store's entry and the network alone. The cache-first
  branch, the default branch and the app shell search all stores, once, and are answered
  with the first entry found in any of them. The install handler opens the active store,
  leaves every other store as it was and deletes none; the activate handler deletes
  exactly the stores that are not the active one.
\<close>

theorem store_scoping:
  assumes "h = fetch_handler ver net \<or> h = fetch_handler_part_000 ver loc net"
  shows "(map fst (caches (snd (h req w))) = map fst (caches w) \<or>
          map fst (caches (snd (h req w))) = map fst (caches w) @ [CACHE_NAME ver]) \<and>
         (\<forall>name. name \<noteq> CACHE_NAME ver \<longrightarrow>
            map_of (caches (snd (h req w))) name = map_of (caches w) name) \<and>
         (\<forall>e \<in> set (new_events w (snd (h req w))).
            named_store e = None \<or> named_store e = Some (CACHE_NAME ver)) \<and>
         filter removes_store (new_events w (snd (h req w))) = [] \<and>
         (req_method req = ''GET'' \<and> is_image req \<and>
          ((h = fetch_handler ver net \<and> \<not> is_style req) \<or>
           (h = fetch_handler_part_000 ver loc net \<and> mode req \<noteq> ''navigate'')) \<longrightarrow>
            fst (h req w) =
              Some (Fulfilled (case store_lookup (CACHE_NAME ver) (url req) (caches w) of
                                 Some c \<Rightarrow> Some c
                               | None \<Rightarrow> (case net (url req) of
                                            Inr n \<Rightarrow> Some n | Inl e \<Rightarrow> None))) \<and>
            take 2 (new_events w (snd (h req w))) =
              [CachesOpen (CACHE_NAME ver), CacheMatch (CACHE_NAME ver) (url req)] \<and>
            filter searches_all (new_events w (snd (h req w))) = []) \<and>
         (req_method req = ''GET'' \<and>
          ((h = fetch_handler ver net \<and> (is_style req \<or> \<not> is_image req)) \<or>
           (h = fetch_handler_part_000 ver loc net \<and> mode req \<noteq> ''navigate'' \<and> \<not> is_image req)) \<longrightarrow>
            fst (h req w) =
              Some (case storage_lookup (url req) (caches w) of
                      Some r \<Rightarrow> Fulfilled (Some r)
                    | None \<Rightarrow> (case net (url req) of
                                 Inr n \<Rightarrow> Fulfilled (Some n) | Inl e \<Rightarrow> Rejected e)) \<and>
            filter searches_all (new_events w (snd (h req w))) = [CachesMatch (url req)]) \<and>
         (req_method req = ''GET'' \<and> mode req = ''navigate'' \<longrightarrow>
            fst (fetch_handler_part_000 ver loc net req w) =
              Some (case storage_lookup (resolve loc ''/index.html'') (caches w) of
                      Some r \<Rightarrow> Fulfilled (Some r)
                    | None \<Rightarrow> (case net (resolve loc ''/index.html'') of
                                 Inr n \<Rightarrow> Fulfilled (Some n) | Inl e \<Rightarrow> Rejected e)) \<and>
            filter searches_all (new_events w (snd (fetch_handler_part_000 ver loc net req w))) =
              [CachesMatch (resolve loc ''/index.html'')]) \<and>
         map fst (caches (snd (install_handler assets ver loc net w))) =
           map fst (open_store (CACHE_NAME ver) (caches w)) \<and>
         (\<forall>name. name \<noteq> CACHE_NAME ver \<longrightarrow>
            map_of (caches (snd (install_handler assets ver loc net w))) name =
              map_of (caches w) name) \<and>
         filter removes_store (new_events w (snd (install_handler assets ver loc net w))) = [] \<and>
         caches (activate_handler ver w) = filter (\<lambda>p. fst p = CACHE_NAME ver) (caches w) \<and>
         filter removes_store (new_events w (activate_handler ver w)) =
           map CachesDelete (filter (\<lambda>k. k \<noteq> CACHE_NAME ver) (map fst (caches w)))"
proof -
  from handler_steps [OF assms, of req w]
  have steps: "caches (snd (h req w)) = caches w \<or>
      caches (snd (h req w)) = open_store (CACHE_NAME ver) (caches w) \<or>
      (\<exists>u n. caches (snd (h req w)) =
              put_entry (CACHE_NAME ver) u n (open_store (CACHE_NAME ver) (caches w)))"
    and events: "\<forall>e \<in> set (new_events w (snd (h req w))).
      named_store e = None \<or> named_store e = Some (CACHE_NAME ver)"
    by blast+
  from steps have keys: "map fst (caches (snd (h req w))) = map fst (caches w) \<or>
      map fst (caches (snd (h req w))) = map fst (caches w) @ [CACHE_NAME ver]"
    by (auto simp: keys_put_entry keys_open_store split: if_splits)
  from steps have others: "map_of (caches (snd (h req w))) name = map_of (caches w) name"
    if "name \<noteq> CACHE_NAME ver" for name
    using that by (auto simp: map_of_put_entry_other map_of_open_store)
  have nodelete: "filter removes_store (new_events w (snd (h req w))) = []"
    using assms by (rule handler_never_deletes)
  have image: "fst (h req w) =
        Some (Fulfilled (case store_lookup (CACHE_NAME ver) (url req) (caches w) of
                           Some c \<Rightarrow> Some c
                         | None \<Rightarrow> (case net (url req) of Inr n \<Rightarrow> Some n | Inl e \<Rightarrow> None))) \<and>
      take 2 (new_events w (snd (h req w))) =
        [CachesOpen (CACHE_NAME ver), CacheMatch (CACHE_NAME ver) (url req)] \<and>
      filter searches_all (new_events w (snd (h req w))) = []"
    if "req_method req = ''GET''" and "is_image req"
      and "(h = fetch_handler ver net \<and> \<not> is_style req) \<or>
           (h = fetch_handler_part_000 ver loc net \<and> mode req \<noteq> ''navigate'')"
  proof -
    have "h req w = (Some (fst (staleWhileRevalidate ver net req w)),
                     snd (staleWhileRevalidate ver net req w))"
      using that(3,1,2) by (rule swr_routed)
    then show ?thesis by (simp add: swr_answer swr_calls)
  qed
  have search: "fst (h req w) =
        Some (case storage_lookup (url req) (caches w) of
                Some r \<Rightarrow> Fulfilled (Some r)
              | None \<Rightarrow> (case net (url req) of
                           Inr n \<Rightarrow> Fulfilled (Some n) | Inl e \<Rightarrow> Rejected e)) \<and>
      filter searches_all (new_events w (snd (h req w))) = [CachesMatch (url req)]"
    if get: "req_method req = ''GET''"
      and route: "(h = fetch_handler ver net \<and> (is_style req \<or> \<not> is_image req)) \<or>
           (h = fetch_handler_part_000 ver loc net \<and> mode req \<noteq> ''navigate'' \<and> \<not> is_image req)"
  proof -
    from route
    have "h req w = (Some (fst (cache_first ver net (url req) w)),
                     snd (cache_first ver net (url req) w)) \<or>
          h req w = (Some (fst (cache_or_network net (url req) w)),
                     snd (cache_or_network net (url req) w))"
      using get
      by (cases "is_style req")
        (auto simp: fetch_handler_style fetch_handler_default fetch_handler_part_000_default)
    then show ?thesis
      by (auto simp: cache_first_answer cache_first_calls cache_or_network_answer
            cache_or_network_calls)
  qed
  have shell: "fst (fetch_handler_part_000 ver loc net req w) =
        Some (case storage_lookup (resolve loc ''/index.html'') (caches w) of
                Some r \<Rightarrow> Fulfilled (Some r)
              | None \<Rightarrow> (case net (resolve loc ''/index.html'') of
                           Inr n \<Rightarrow> Fulfilled (Some n) | Inl e \<Rightarrow> Rejected e)) \<and>
      filter searches_all (new_events w (snd (fetch_handler_part_000 ver loc net req w))) =
        [CachesMatch (resolve loc ''/index.html'')]"
    if "req_method req = ''GET''" and "mode req = ''navigate''"
    using that
    by (simp add: fetch_handler_part_000_navigate cache_or_network_answer cache_or_network_calls)
  from install_scoped [of assets ver loc net w]
  have install: "map fst (caches (snd (install_handler assets ver loc net w))) =
        map fst (open_store (CACHE_NAME ver) (caches w)) \<and>
      (\<forall>name. name \<noteq> CACHE_NAME ver \<longrightarrow>
         map_of (caches (snd (install_handler assets ver loc net w))) name =
           map_of (caches w) name) \<and>
      filter removes_store (new_events w (snd (install_handler assets ver loc net w))) = []"
    by simp
  have activate: "caches (activate_handler ver w) = filter (\<lambda>p. fst p = CACHE_NAME ver) (caches w) \<and>
      filter removes_store (new_events w (activate_handler ver w)) =
        map CachesDelete (filter (\<lambda>k. k \<noteq> CACHE_NAME ver) (map fst (caches w)))"
    by (simp add: activate_caches activate_calls filter_map comp_def)
  from keys others events nodelete image search shell install activate show ?thesis
    by blast
qed

theorem store_scoping_witness:
  "''oha-v1'' \<noteq> CACHE_NAME CACHE_VERSION \<and>
   req_method photo_request = ''GET'' \<and> is_image photo_request \<and> \<not> is_style photo_request \<and>
   map_of (caches (snd (fetch_handler CACHE_VERSION (serving (page 200 ''new'')) photo_request
                          (holding [(''oha-v1'', [(url photo_request, page 200 ''old'')])]))))
       ''oha-v1''
     = Some [(url photo_request, page 200 ''old'')] \<and>
   fst (fetch_handler CACHE_VERSION (serving (page 200 ''new'')) photo_request
          (holding [(''oha-v1'', [(url photo_request, page 200 ''old'')])]))
     = Some (Fulfilled (Some (page 200 ''new''))) \<and>
   filter searches_all
       (new_events (holding [(''oha-v1'', [(url photo_request, page 200 ''old'')])])
          (snd (fetch_handler CACHE_VERSION (serving (page 200 ''new'')) photo_request
                  (holding [(''oha-v1'', [(url photo_request, page 200 ''old'')])]))))
     = [] \<and>
   req_method json_request = ''GET'' \<and> mode json_request \<noteq> ''navigate'' \<and>
   \<not> is_image json_request \<and>
   fst (fetch_handler_part_000 CACHE_VERSION site (serving (page 200 ''new'')) json_request
          (holding [(''oha-v1'', [(url json_request, page 200 ''old'')]), (''oha-v2'', [])]))
     = Some (Fulfilled (Some (page 200 ''old''))) \<and>
   filter searches_all
       (new_events (holding [(''oha-v1'', [(url json_request, page 200 ''old'')]), (''oha-v2'', [])])
          (snd (fetch_handler_part_000 CACHE_VERSION site (serving (page 200 ''new'')) json_request
                  (holding [(''oha-v1'', [(url json_request, page 200 ''old'')]), (''oha-v2'', [])]))))
     = [CachesMatch (url json_request)] \<and>
   filter removes_store
       (new_events (holding [(''oha-v1'', [(url json_request, page 200 ''old'')]), (''oha-v2'', [])])
          (activate_handler CACHE_VERSION
             (holding [(''oha-v1'', [(url json_request, page 200 ''old'')]), (''oha-v2'', [])])))
     = [CachesDelete ''oha-v1'']"
proof -
  let ?w = "holding [(''oha-v1'', [(url photo_request, page 200 ''old'')])]"
  let ?v = "holding [(''oha-v1'', [(url json_request, page 200 ''old'')]), (''oha-v2'', [])]"
  have other: "''oha-v1'' \<noteq> CACHE_NAME CACHE_VERSION"
    by (simp add: CACHE_NAME_def CACHE_VERSION_def)
  have photo: "req_method photo_request = ''GET''" "is_image photo_request"
    "\<not> is_style photo_request"
    by (simp_all add: site_def get_request_def photo_request_def resolve_def is_style_def
          is_image_def suffix_to_prefix)
  have json: "req_method json_request = ''GET''" "mode json_request \<noteq> ''navigate''"
    "\<not> is_image json_request"
    by (simp_all add: site_def get_request_def json_request_def resolve_def is_image_def
          suffix_to_prefix)
  have absent: "store_lookup (CACHE_NAME CACHE_VERSION) (url photo_request) (caches ?w) = None"
    and net: "serving (page 200 ''new'') (url photo_request) = Inr (page 200 ''new'')"
    and found: "storage_lookup (url json_request) (caches ?v) = Some (page 200 ''old'')"
    by (simp_all add: holding_def store_lookup_def CACHE_NAME_def CACHE_VERSION_def serving_def)
  from store_scoping
      [where h = "fetch_handler CACHE_VERSION (serving (page 200 ''new''))"
         and ver = CACHE_VERSION and net = "serving (page 200 ''new'')" and loc = site
         and req = photo_request and w = ?w and assets = CORE_ASSETS]
    other photo
  have a: "map_of (caches (snd (fetch_handler CACHE_VERSION (serving (page 200 ''new''))
                                  photo_request ?w))) ''oha-v1''
        = map_of (caches ?w) ''oha-v1'' \<and>
      fst (fetch_handler CACHE_VERSION (serving (page 200 ''new'')) photo_request ?w) =
        Some (Fulfilled (case store_lookup (CACHE_NAME CACHE_VERSION) (url photo_request) (caches ?w) of
                           Some c \<Rightarrow> Some c
                         | None \<Rightarrow> (case serving (page 200 ''new'') (url photo_request) of
                                      Inr n \<Rightarrow> Some n | Inl e \<Rightarrow> None))) \<and>
      filter searches_all
          (new_events ?w (snd (fetch_handler CACHE_VERSION (serving (page 200 ''new''))
                                 photo_request ?w))) = []"
    by blast
  from store_scoping
      [where h = "fetch_handler_part_000 CACHE_VERSION site (serving (page 200 ''new''))"
         and ver = CACHE_VERSION and net = "serving (page 200 ''new'')" and loc = site
         and req = json_request and w = ?v and assets = CORE_ASSETS]
    json
  have b: "fst (fetch_handler_part_000 CACHE_VERSION site (serving (page 200 ''new'')) json_request ?v) =
        Some (case storage_lookup (url json_request) (caches ?v) of
                Some r \<Rightarrow> Fulfilled (Some r)
              | None \<Rightarrow> (case serving (page 200 ''new'') (url json_request) of
                           Inr n \<Rightarrow> Fulfilled (Some n) | Inl e \<Rightarrow> Rejected e)) \<and>
      filter searches_all
          (new_events ?v (snd (fetch_handler_part_000 CACHE_VERSION site
                                 (serving (page 200 ''new'')) json_request ?v)))
        = [CachesMatch (url json_request)] \<and>
      filter removes_store (new_events ?v (activate_handler CACHE_VERSION ?v)) =
        map CachesDelete (filter (\<lambda>k. k \<noteq> CACHE_NAME CACHE_VERSION) (map fst (caches ?v)))"
    by blast
  from a absent net
  have a': "map_of (caches (snd (fetch_handler CACHE_VERSION (serving (page 200 ''new''))
                                   photo_request ?w))) ''oha-v1''
        = Some [(url photo_request, page 200 ''old'')] \<and>
      fst (fetch_handler CACHE_VERSION (serving (page 200 ''new'')) photo_request ?w) =
        Some (Fulfilled (Some (page 200 ''new''))) \<and>
      filter searches_all
          (new_events ?w (snd (fetch_handler CACHE_VERSION (serving (page 200 ''new''))
                                 photo_request ?w))) = []"
    by (simp add: holding_def)
  from b found
  have b': "fst (fetch_handler_part_000 CACHE_VERSION site (serving (page 200 ''new'')) json_request ?v) =
        Some (Fulfilled (Some (page 200 ''old''))) \<and>
      filter searches_all
          (new_events ?v (snd (fetch_handler_part_000 CACHE_VERSION site
                                 (serving (page 200 ''new'')) json_request ?v)))
        = [CachesMatch (url json_request)] \<and>
      filter removes_store (new_events ?v (activate_handler CACHE_VERSION ?v)) =
        [CachesDelete ''oha-v1'']"
    by (simp add: holding_def CACHE_NAME_def CACHE_VERSION_def)
  from other photo json a' b' show ?thesis by blast
qed




end
